theory Spec2Isabelle
  imports Main
begin

section \<open>The BGG proxy: data model\<close>

text \<open>
  The handler \<open>get_bgg_games\<close> of \<open>src/main.py\<close> has two parts: the retry loop around
  the upstream call (lines 61-116) and the normalisation of the parsed XML tree
  (lines 118-173). Both are embedded below, branch by branch.
\<close>

subsection \<open>The tree returned by the XML parser\<close>

text \<open>
  \<open>xmltodict.parse\<close> returns a dict whose values are \<open>None\<close>, a string, a dict, or (for
  repeated sibling elements) a list of such values; a list never holds a list. The
  code also compares a value with the integer \<open>1\<close>, so integers are values too.
  A dict is an association list read with \<open>map_of\<close>. \<open>isinstance(v, list)\<close> is the
  constructor \<open>Many\<close>, \<open>isinstance(v, dict)\<close> is \<open>Single (PyDict d)\<close>.
  The JSON body the handler returns is a dict of the same values.
\<close>

datatype elem = PyNone | PyStr string | PyInt int | PyDict "(string \<times> node) list"
  and node = Single elem | Many "elem list"

type_synonym pydict = "(string \<times> node) list"

abbreviation null :: node where
  "null \<equiv> Single PyNone"

abbreviation str :: "string \<Rightarrow> node" where
  "str s \<equiv> Single (PyStr s)"

text \<open>\<open>d.get(k, default)\<close>; \<open>d.get(k)\<close> is \<open>dict_get d k null\<close>.\<close>

definition dict_get :: "pydict \<Rightarrow> string \<Rightarrow> node \<Rightarrow> node" where
  "dict_get d k dflt = (case map_of d k of None \<Rightarrow> dflt | Some v \<Rightarrow> v)"

subsection \<open>Errors, upstream outcomes and the trace of effects\<close>

text \<open>
  \<open>HTTPException status_code detail\<close> is the classified failure the handler raises;
  \<open>AttributeError\<close> and \<open>TypeError\<close> are the Python errors that nothing in the handler
  catches.
\<close>

datatype error = HTTPException int string | AttributeError | TypeError

text \<open>
  One call of \<open>client.get\<close> either returns a response (status code and text) or raises
  \<open>httpx.TimeoutException\<close> or another \<open>httpx.HTTPError\<close>; the string is \<open>str(e)\<close>.
\<close>

datatype outcome = Response int string | TimeoutException string | HTTPError string

text \<open>
  The effects of a request: how many upstream calls were made and which delays were
  slept, in order.
\<close>

record trace =
  calls :: nat
  sleeps :: "nat list"

definition max_retries :: nat where
  "max_retries = 5"

definition retry_delay :: nat where
  "retry_delay = 5"

subsection \<open>Formatting integers, as an f-string does\<close>

function str_nat :: "nat \<Rightarrow> string" where
  "str_nat n = (if n < 10 then [''0123456789'' ! n]
                else str_nat (n div 10) @ [''0123456789'' ! (n mod 10)])"
  by pat_completeness auto
termination
  by (relation "measure (\<lambda>n. n)") auto

declare str_nat.simps [simp del]

definition str_int :: "int \<Rightarrow> string" where
  "str_int i = (if i < 0 then CHR ''-'' # str_nat (nat (- i)) else str_nat (nat i))"

section \<open>The fetcher: the retry loop\<close>

text \<open>
  What one iteration of the loop does with the outcome of its upstream call:
  sleep \<open>retry_delay\<close> and \<open>continue\<close>, \<open>break\<close> with the response text, or raise.
\<close>

datatype step = SleepContinue | Break string | Raise error

definition attempt_step :: "outcome \<Rightarrow> nat \<Rightarrow> step" where
  "attempt_step out attempt =
     (case out of
        Response status_code text \<Rightarrow>
          if status_code = 202 then
            (if attempt < max_retries - 1 then SleepContinue
             else Raise (HTTPException 202
               ''BGG is processing the collection. Please try again in a few moments.''))
          else if status_code = 500 \<or> status_code = 503 then
            (if attempt < max_retries - 1 then SleepContinue
             else Raise (HTTPException 503 ''BGG is very busy. Please try again later.''))
          else if status_code \<noteq> 200 then
            Raise (HTTPException 502
              (''BGG returned HTTP error '' @ str_int status_code @ '': '' @ take 200 text))
          else Break text
      | TimeoutException e \<Rightarrow>
          if attempt < max_retries - 1 then SleepContinue
          else Raise (HTTPException 504
            (''Timeout contacting BGG after '' @ str_nat max_retries @ '' attempts: '' @ e))
      | HTTPError e \<Rightarrow>
          if attempt < max_retries - 1 then SleepContinue
          else Raise (HTTPException 502
            (''Error contacting BGG after '' @ str_nat max_retries @ '' attempts: '' @ e)))"

text \<open>
  How the \<open>for\<close> statement ends: by \<open>break\<close>, by an exception, or by exhausting
  \<open>range(max_retries)\<close>, which runs its \<open>else\<close> clause.
\<close>

datatype loop_exit = Broke string | Raised error | Exhausted

text \<open>
  \<open>for attempt in range(max_retries)\<close>, over the list of the attempts still to run.
  \<open>client_get\<close> gives the outcome of the upstream calls of this request, by the number
  of calls made before.
\<close>

fun retry_loop :: "(nat \<Rightarrow> outcome) \<Rightarrow> nat list \<Rightarrow> trace \<Rightarrow> loop_exit \<times> trace" where
  "retry_loop client_get [] tr = (Exhausted, tr)"
| "retry_loop client_get (attempt # rest) tr =
     (let out = client_get (calls tr);
          tr1 = tr\<lparr>calls := Suc (calls tr)\<rparr>
      in case attempt_step out attempt of
           SleepContinue \<Rightarrow>
             retry_loop client_get rest (tr1\<lparr>sleeps := sleeps tr1 @ [retry_delay]\<rparr>)
         | Break text \<Rightarrow> (Broke text, tr1)
         | Raise e \<Rightarrow> (Raised e, tr1))"

text \<open>The exception of the \<open>else\<close> clause of the loop (lines 111-116).\<close>

definition fallback :: error where
  "fallback =
     HTTPException 503
       (''Could not retrieve collection after '' @ str_nat max_retries @ '' attempts'')"

text \<open>
  Lines 64-116: the loop from a fresh trace, then the \<open>else\<close> clause when the loop was
  exhausted. \<open>Inr\<close> is the text of the 200 response the loop left with.
\<close>

definition fetch :: "(nat \<Rightarrow> outcome) \<Rightarrow> (error + string) \<times> trace" where
  "fetch client_get =
     (case retry_loop client_get [0..<max_retries] \<lparr>calls = 0, sleeps = []\<rparr> of
        (Broke text, tr) \<Rightarrow> (Inr text, tr)
      | (Raised e, tr) \<Rightarrow> (Inl e, tr)
      | (Exhausted, tr) \<Rightarrow> (Inl fallback, tr))"

section \<open>The normalizer\<close>

text \<open>\<open>d.get("#text", d.get("@value", ""))\<close>, written three times in the source.\<close>

definition text_or_value :: "pydict \<Rightarrow> node" where
  "text_or_value d = dict_get d ''#text'' (dict_get d ''@value'' (str ''''))"

text \<open>\<open>v == "1" or v == 1\<close> on the \<open>@sortindex\<close> entry of a candidate.\<close>

definition sortindex_is_1 :: "pydict \<Rightarrow> bool" where
  "sortindex_is_1 d =
     (dict_get d ''@sortindex'' null = str ''1'' \<or> dict_get d ''@sortindex'' null = Single (PyInt 1))"

text \<open>
  The loop \<open>for n in name_data\<close> with its \<open>break\<close>; the result is the value of \<open>name\<close>
  after the loop, \<open>None\<close> when no entry was taken.
\<close>

fun find_sortindex :: "elem list \<Rightarrow> node" where
  "find_sortindex [] = null"
| "find_sortindex (n # ns) =
     (case n of
        PyDict d \<Rightarrow> if sortindex_is_1 d then text_or_value d else find_sortindex ns
      | _ \<Rightarrow> find_sortindex ns)"

text \<open>
  The name of one item, from \<open>name_data = game.get("name")\<close>. \<open>str\<close> of a value that is
  not a dict is \<open>"None"\<close>, the string itself, or the decimal digits of the integer.
\<close>

definition extract_name :: "node \<Rightarrow> node" where
  "extract_name name_data =
     (case name_data of
        Many ns \<Rightarrow>
          (let name = find_sortindex ns
           in if name = null \<and> ns \<noteq> [] then
                (case ns of
                   PyDict d # _ \<Rightarrow> text_or_value d
                 | PyNone # _ \<Rightarrow> str ''None''
                 | PyStr s # _ \<Rightarrow> str s
                 | PyInt i # _ \<Rightarrow> str (str_int i)
                 | [] \<Rightarrow> name)
              else name)
      | Single (PyDict d) \<Rightarrow> text_or_value d
      | Single PyNone \<Rightarrow> null
      | Single (PyStr s) \<Rightarrow> if s \<noteq> [] then str s else null
      | Single (PyInt i) \<Rightarrow> if i \<noteq> 0 then str (str_int i) else null)"

text \<open>The record appended for one item \<open>game\<close> that is a dict (lines 141-171).\<close>

definition parsed_game :: "pydict \<Rightarrow> elem" where
  "parsed_game game =
     PyDict [(''objectid'', dict_get game ''@objectid'' null),
             (''name'', extract_name (dict_get game ''name'' null))]"

text \<open>
  The loop \<open>for game in items\<close>, with the list \<open>result\<close> built so far. \<open>game.get\<close> on a
  value that is not a dict raises \<open>AttributeError\<close>.
\<close>

fun build_result :: "elem list \<Rightarrow> elem list \<Rightarrow> error + elem list" where
  "build_result [] result = Inr result"
| "build_result (game # rest) result =
     (case game of
        PyDict g \<Rightarrow> build_result rest (result @ [parsed_game g])
      | _ \<Rightarrow> Inl AttributeError)"

text \<open>
  What \<open>for game in items\<close> iterates over: the entries of a list, the characters of a
  string, the keys of a dict; \<open>None\<close> and an integer are not iterable.
\<close>

definition iterate :: "node \<Rightarrow> error + elem list" where
  "iterate items =
     (case items of
        Many gs \<Rightarrow> Inr gs
      | Single (PyStr s) \<Rightarrow> Inr (map (\<lambda>c. PyStr [c]) s)
      | Single (PyDict d) \<Rightarrow> Inr (map (\<lambda>kv. PyStr (fst kv)) d)
      | Single PyNone \<Rightarrow> Inl TypeError
      | Single (PyInt i) \<Rightarrow> Inl TypeError)"

text \<open>Lines 130-173: from the parsed tree \<open>data\<close> to the JSON body.\<close>

definition normalize :: "pydict \<Rightarrow> error + pydict" where
  "normalize data =
     (case map_of data ''message'' of
        Some m \<Rightarrow>
          Inr [(''status'', str ''processing''),
               (''message'', case m of Single (PyDict d) \<Rightarrow> dict_get d ''#text'' null | _ \<Rightarrow> m)]
      | None \<Rightarrow>
          (case dict_get data ''items'' (Single (PyDict [])) of
             Single (PyDict its) \<Rightarrow>
               (let items = dict_get its ''item'' (Many []);
                    items = (case items of Single (PyDict g) \<Rightarrow> Many [PyDict g] | _ \<Rightarrow> items)
                in case iterate items of
                     Inl e \<Rightarrow> Inl e
                   | Inr gs \<Rightarrow>
                       (case build_result gs [] of
                          Inl e \<Rightarrow> Inl e
                        | Inr result \<Rightarrow>
                            Inr [(''status'', str ''ok''),
                                 (''count'', Single (PyInt (int (length result)))),
                                 (''items'', Many result)]))
           | _ \<Rightarrow> Inl AttributeError))"

section \<open>The handler\<close>

text \<open>
  \<open>parse\<close> is \<open>xmltodict.parse\<close>: the tree, or \<open>Inl\<close> the text \<open>str(e)\<close> of the exception
  it raised.
\<close>

definition get_bgg_games ::
  "(string \<Rightarrow> string + pydict) \<Rightarrow> (nat \<Rightarrow> outcome) \<Rightarrow> string \<Rightarrow> (error + pydict) \<times> trace" where
  "get_bgg_games parse client_get username =
     (if username = [] then
        (Inl (HTTPException 400 ''username is required''), \<lparr>calls = 0, sleeps = []\<rparr>)
      else
        (case fetch client_get of
           (Inl e, tr) \<Rightarrow> (Inl e, tr)
         | (Inr xml, tr) \<Rightarrow>
             (case parse xml of
                Inl e \<Rightarrow>
                  (Inl (HTTPException 502
                     (''Could not parse BGG XML response: '' @ e @
                      ''. Received response: '' @ take 500 xml)), tr)
              | Inr data \<Rightarrow> (normalize data, tr))))"

section \<open>Predicates used to state the properties\<close>

text \<open>
  An outcome after which the loop sleeps and tries again while attempts remain: status
  202, 500 or 503, a timeout, or another transport error.
\<close>

definition retryable :: "outcome \<Rightarrow> bool" where
  "retryable out =
     (case out of
        Response status_code text \<Rightarrow> status_code = 202 \<or> status_code = 500 \<or> status_code = 503
      | TimeoutException e \<Rightarrow> True
      | HTTPError e \<Rightarrow> True)"

text \<open>The classified terminal failures of the fetcher: an HTTP error of status 202, 502, 503 or 504.\<close>

definition classified :: "error \<Rightarrow> bool" where
  "classified e =
     (case e of
        HTTPException status_code detail \<Rightarrow>
          status_code = 202 \<or> status_code = 502 \<or> status_code = 503 \<or> status_code = 504
      | AttributeError \<Rightarrow> False
      | TypeError \<Rightarrow> False)"

definition is_dict :: "elem \<Rightarrow> bool" where
  "is_dict e = (case e of PyDict d \<Rightarrow> True | _ \<Rightarrow> False)"

definition the_dict :: "elem \<Rightarrow> pydict" where
  "the_dict e = (case e of PyDict d \<Rightarrow> d | _ \<Rightarrow> [])"

text \<open>A name candidate whose \<open>sortindex\<close> attribute is the string \<open>"1"\<close> or the integer \<open>1\<close>.\<close>

definition has_sortindex_1 :: "elem \<Rightarrow> bool" where
  "has_sortindex_1 n =
     (case n of
        PyDict d \<Rightarrow>
          map_of d ''@sortindex'' = Some (str ''1'') \<or>
          map_of d ''@sortindex'' = Some (Single (PyInt 1))
      | _ \<Rightarrow> False)"

text \<open>
  The shapes of the item collection the normalizer handles: the \<open>item\<close> node is absent, a
  mapping, or a sequence of mappings, inside an \<open>items\<close> node that is absent or a mapping.
  A tree with a top-level \<open>message\<close> is handled whatever else it holds.
\<close>

definition item_shape_ok :: "node option \<Rightarrow> bool" where
  "item_shape_ok item =
     (case item of
        None \<Rightarrow> True
      | Some (Single e) \<Rightarrow> is_dict e
      | Some (Many gs) \<Rightarrow> list_all is_dict gs)"

definition tree_shape_ok :: "pydict \<Rightarrow> bool" where
  "tree_shape_ok data =
     (case map_of data ''message'' of
        Some m \<Rightarrow> True
      | None \<Rightarrow>
          (case map_of data ''items'' of
             None \<Rightarrow> True
           | Some (Single (PyDict its)) \<Rightarrow> item_shape_ok (map_of its ''item'')
           | Some other \<Rightarrow> False))"

text \<open>The items of a tree, in upstream order: none, the single one, or those of the sequence.\<close>

definition item_list :: "pydict \<Rightarrow> elem list" where
  "item_list data =
     (case map_of data ''items'' of
        Some (Single (PyDict its)) \<Rightarrow>
          (case map_of its ''item'' of
             Some (Single e) \<Rightarrow> [e]
           | Some (Many gs) \<Rightarrow> gs
           | None \<Rightarrow> [])
      | _ \<Rightarrow> [])"

text \<open>The body of an ok response with the records \<open>result\<close>.\<close>

definition ok_response :: "elem list \<Rightarrow> pydict" where
  "ok_response result =
     [(''status'', str ''ok''),
      (''count'', Single (PyInt (int (length result)))),
      (''items'', Many result)]"

section \<open>The retry loop: auxiliary facts\<close>

lemma range_max_retries: "[0..<max_retries] = [0, 1, 2, 3, 4]"
  unfolding max_retries_def by code_simp

lemma str_nat_max_retries: "str_nat max_retries = ''5''"
  by (simp add: max_retries_def str_nat.simps)

lemma attempt_step_retryable:
  "retryable out \<Longrightarrow> attempt < max_retries - 1 \<Longrightarrow> attempt_step out attempt = SleepContinue"
  by (auto simp: retryable_def attempt_step_def split: outcome.splits)

lemma attempt_step_last:
  "\<not> attempt < max_retries - 1 \<Longrightarrow> attempt_step out attempt \<noteq> SleepContinue"
  by (simp add: attempt_step_def split: outcome.splits)

lemma attempt_step_Break:
  "attempt_step out attempt = Break text \<Longrightarrow> out = Response 200 text"
  by (simp add: attempt_step_def split: outcome.splits if_splits)

lemma attempt_step_Raise:
  "attempt_step out attempt = Raise e \<Longrightarrow> classified e \<and> e \<noteq> fallback"
  by (auto simp: attempt_step_def classified_def fallback_def str_nat_max_retries
      split: outcome.splits if_splits)

text \<open>Every iteration makes one upstream call, so a loop over \<open>xs\<close> makes at most \<open>length xs\<close>.\<close>

lemma retry_loop_calls: "calls (snd (retry_loop up xs tr)) \<le> calls tr + length xs"
proof (induction xs arbitrary: tr)
  case Nil
  show ?case by simp
next
  case (Cons attempt rest)
  let ?tr2 = "tr\<lparr>calls := Suc (calls tr), sleeps := sleeps tr @ [retry_delay]\<rparr>"
  have "calls (snd (retry_loop up rest ?tr2)) \<le> calls ?tr2 + length rest"
    by (rule Cons.IH)
  then show ?case
    by (cases "attempt_step (up (calls tr)) attempt") (simp_all add: Let_def)
qed

lemma retry_loop_calls_lower:
  "calls tr + length (take 1 xs) \<le> calls (snd (retry_loop up xs tr))"
proof (induction xs arbitrary: tr)
  case Nil
  show ?case by simp
next
  case (Cons attempt rest)
  let ?tr2 = "tr\<lparr>calls := Suc (calls tr), sleeps := sleeps tr @ [retry_delay]\<rparr>"
  have "calls ?tr2 + length (take 1 rest) \<le> calls (snd (retry_loop up rest ?tr2))"
    by (rule Cons.IH)
  then have "Suc (calls tr) \<le> calls (snd (retry_loop up rest ?tr2))"
    by simp
  then show ?case
    by (cases "attempt_step (up (calls tr)) attempt") (simp_all add: Let_def)
qed

lemma attempt_step_200: "attempt_step (Response 200 xml) attempt = Break xml"
  by (simp add: attempt_step_def)

text \<open>How the loop can end, whatever the attempts and the outcomes are.\<close>

lemma retry_loop_exit:
  "retry_loop up xs tr = (ex, tr') \<Longrightarrow>
     (\<forall>text. ex = Broke text \<longrightarrow> up (calls tr' - 1) = Response 200 text) \<and>
     (\<forall>e. ex = Raised e \<longrightarrow> classified e \<and> e \<noteq> fallback) \<and>
     (ex = Exhausted \<longrightarrow> xs = [] \<or> last xs < max_retries - 1)"
proof (induction xs arbitrary: tr)
  case Nil
  then show ?case by simp
next
  case (Cons attempt rest)
  show ?case
  proof (cases "attempt_step (up (calls tr)) attempt")
    case SleepContinue
    let ?tr2 = "tr\<lparr>calls := Suc (calls tr), sleeps := sleeps tr @ [retry_delay]\<rparr>"
    have run: "retry_loop up rest ?tr2 = (ex, tr')"
      using Cons.prems SleepContinue by (simp add: Let_def)
    have ih: "(\<forall>text. ex = Broke text \<longrightarrow> up (calls tr' - 1) = Response 200 text) \<and>
     (\<forall>e. ex = Raised e \<longrightarrow> classified e \<and> e \<noteq> fallback) \<and>
     (ex = Exhausted \<longrightarrow> rest = [] \<or> last rest < max_retries - 1)"
      by (rule Cons.IH [OF run])
    have "attempt < max_retries - 1"
      using attempt_step_last [of attempt "up (calls tr)"] SleepContinue by blast
    then show ?thesis using ih by auto
  next
    case (Break body)
    then show ?thesis
      using Cons.prems attempt_step_Break [of "up (calls tr)" attempt body]
      by (auto simp: Let_def)
  next
    case (Raise e)
    then show ?thesis
      using Cons.prems attempt_step_Raise [of "up (calls tr)" attempt e]
      by (auto simp: Let_def)
  qed
qed

text \<open>After \<open>k\<close> retryable outcomes the loop is at attempt \<open>k\<close>, having slept \<open>k\<close> times.\<close>

lemma retry_loop_skip:
  "\<forall>i<k. retryable (up (c + i)) \<Longrightarrow> a + k < max_retries \<Longrightarrow>
   retry_loop up [a..<max_retries] \<lparr>calls = c, sleeps = sl\<rparr> =
   retry_loop up [a + k..<max_retries] \<lparr>calls = c + k, sleeps = sl @ replicate k retry_delay\<rparr>"
proof (induction k arbitrary: a c sl)
  case 0
  then show ?case by simp
next
  case (Suc k)
  have a: "a < max_retries - 1" using Suc.prems(2) by simp
  have r0: "retryable (up c)" using Suc.prems(1) by (metis add.right_neutral zero_less_Suc)
  have step: "attempt_step (up c) a = SleepContinue"
    using attempt_step_retryable [OF r0 a] .
  have rest: "\<forall>i<k. retryable (up (Suc c + i))"
    using Suc.prems(1) by (metis Suc_less_eq add_Suc_right add_Suc)
  have cons: "[a..<max_retries] = a # [Suc a..<max_retries]"
    using a by (simp add: upt_conv_Cons)
  have "retry_loop up [a..<max_retries] \<lparr>calls = c, sleeps = sl\<rparr> =
        retry_loop up [Suc a..<max_retries] \<lparr>calls = Suc c, sleeps = sl @ [retry_delay]\<rparr>"
    by (simp add: cons step)
  also have "\<dots> = retry_loop up [Suc a + k..<max_retries]
        \<lparr>calls = Suc c + k, sleeps = (sl @ [retry_delay]) @ replicate k retry_delay\<rparr>"
    using Suc.IH [OF rest, of "Suc a" "sl @ [retry_delay]"] Suc.prems(2) by simp
  finally show ?case by (simp add: replicate_app_Cons_same)
qed

lemma retry_loop_at:
  assumes "k < max_retries" and "\<forall>i<k. retryable (up i)"
  shows "retry_loop up [0..<max_retries] \<lparr>calls = 0, sleeps = []\<rparr> =
         retry_loop up (k # [Suc k..<max_retries]) \<lparr>calls = k, sleeps = replicate k retry_delay\<rparr>"
proof -
  have "retry_loop up [0..<max_retries] \<lparr>calls = 0, sleeps = []\<rparr> =
        retry_loop up [k..<max_retries] \<lparr>calls = k, sleeps = replicate k retry_delay\<rparr>"
    using retry_loop_skip [of k up 0 0 "[]"] assms by simp
  moreover have "[k..<max_retries] = k # [Suc k..<max_retries]"
    using assms(1) by (simp add: upt_conv_Cons)
  ultimately show ?thesis by simp
qed

lemma fetch_Break:
  assumes "k < max_retries" and "\<forall>i<k. retryable (up i)" and "attempt_step (up k) k = Break text"
  shows "fetch up = (Inr text, \<lparr>calls = Suc k, sleeps = replicate k retry_delay\<rparr>)"
  using retry_loop_at [OF assms(1,2)] assms(3) by (simp add: fetch_def)

lemma fetch_Raise:
  assumes "k < max_retries" and "\<forall>i<k. retryable (up i)" and "attempt_step (up k) k = Raise e"
  shows "fetch up = (Inl e, \<lparr>calls = Suc k, sleeps = replicate k retry_delay\<rparr>)"
  using retry_loop_at [OF assms(1,2)] assms(3) by (simp add: fetch_def)

lemma fetch_calls: "calls (snd (fetch up)) \<le> max_retries"
proof -
  have "calls (snd (retry_loop up [0..<max_retries] \<lparr>calls = 0, sleeps = []\<rparr>)) \<le> max_retries"
    using retry_loop_calls [of up "[0..<max_retries]" "\<lparr>calls = 0, sleeps = []\<rparr>"] by simp
  then show ?thesis
    by (auto simp: fetch_def split: prod.splits loop_exit.splits)
qed

section \<open>Properties of the fetcher\<close>

text \<open>
  Claim C1. When the upstream answers 202 on every attempt, the fetcher makes exactly
  \<open>max_retries\<close> = 5 upstream calls, sleeps exactly \<open>max_retries - 1\<close> = 4 times for
  \<open>retry_delay\<close> = 5 seconds, and ends with the 202 failure "BGG is processing the
  collection". Whatever the upstream outcomes are, a request makes at most 5 calls.
\<close>

theorem fetch_all_202:
  "((\<forall>i. \<exists>body. client_get i = Response 202 body) \<longrightarrow>
      fetch client_get =
        (Inl (HTTPException 202
                ''BGG is processing the collection. Please try again in a few moments.''),
         \<lparr>calls = max_retries, sleeps = replicate (max_retries - 1) retry_delay\<rparr>))
   \<and> calls (snd (fetch up)) \<le> max_retries
   \<and> max_retries = 5 \<and> retry_delay = 5"
proof (intro conjI impI)
  assume all: "\<forall>i. \<exists>body. client_get i = Response 202 body"
  have r: "\<forall>i<4. retryable (client_get i)"
  proof (intro allI impI)
    fix i :: nat
    obtain body where "client_get i = Response 202 body" using all by blast
    then show "retryable (client_get i)" by (simp add: retryable_def)
  qed
  obtain body where "client_get 4 = Response 202 body" using all by blast
  then have "attempt_step (client_get 4) 4 = Raise (HTTPException 202
      ''BGG is processing the collection. Please try again in a few moments.'')"
    by (simp add: attempt_step_def max_retries_def)
  then show "fetch client_get =
        (Inl (HTTPException 202
                ''BGG is processing the collection. Please try again in a few moments.''),
         \<lparr>calls = max_retries, sleeps = replicate (max_retries - 1) retry_delay\<rparr>)"
    using fetch_Raise [of 4 client_get] r by (simp add: max_retries_def)
next
  show "calls (snd (fetch up)) \<le> max_retries" by (rule fetch_calls)
next
  show "max_retries = 5" by (simp add: max_retries_def)
next
  show "retry_delay = 5" by (simp add: retry_delay_def)
qed

theorem fetch_all_202_witness:
  "fetch (\<lambda>i. Response 202 ''queued'') =
     (Inl (HTTPException 202
             ''BGG is processing the collection. Please try again in a few moments.''),
      \<lparr>calls = 5, sleeps = [5, 5, 5, 5]\<rparr>)"
proof -
  have "fetch (\<lambda>i. Response 202 ''queued'') =
     (Inl (HTTPException 202
             ''BGG is processing the collection. Please try again in a few moments.''),
      \<lparr>calls = max_retries, sleeps = replicate (max_retries - 1) retry_delay\<rparr>)"
    using fetch_all_202 [of "\<lambda>i. Response 202 ''queued''"] by blast
  moreover have "replicate (max_retries - 1) retry_delay = [5, 5, 5, 5]"
    unfolding max_retries_def retry_delay_def by code_simp
  ultimately show ?thesis by (simp add: max_retries_def)
qed

text \<open>
  Claim C2. On any attempt whose response has a status other than 200, 202, 500 and
  503, the loop raises the 502 failure at once: its detail carries the status and the
  first 200 characters of the body, the only effect is the upstream call itself (no
  sleep, no further call), whatever the attempt index and the attempts remaining.
  For a whole request: when the first \<open>k\<close> outcomes were retried and outcome \<open>k\<close> has
  such a status, the request ends after \<open>k + 1\<close> calls and \<open>k\<close> delays.
\<close>

theorem unexpected_status_502:
  assumes "client_get k = Response status_code text"
    and "status_code \<noteq> 200" and "status_code \<noteq> 202"
    and "status_code \<noteq> 500" and "status_code \<noteq> 503"
  shows "(calls tr = k \<longrightarrow>
            retry_loop client_get (attempt # rest) tr =
              (Raised (HTTPException 502
                 (''BGG returned HTTP error '' @ str_int status_code @ '': '' @ take 200 text)),
               tr\<lparr>calls := Suc k\<rparr>))
         \<and> (k < max_retries \<and> (\<forall>i<k. retryable (client_get i)) \<longrightarrow>
              fetch client_get =
                (Inl (HTTPException 502
                   (''BGG returned HTTP error '' @ str_int status_code @ '': '' @ take 200 text)),
                 \<lparr>calls = Suc k, sleeps = replicate k retry_delay\<rparr>))"
proof (intro conjI impI)
  have step: "attempt_step (client_get k) a =
      Raise (HTTPException 502
              (''BGG returned HTTP error '' @ str_int status_code @ '': '' @ take 200 text))" for a
    using assms by (simp add: attempt_step_def)
  {
    assume "calls tr = k"
    then show "retry_loop client_get (attempt # rest) tr =
           (Raised (HTTPException 502
              (''BGG returned HTTP error '' @ str_int status_code @ '': '' @ take 200 text)),
            tr\<lparr>calls := Suc k\<rparr>)"
      using step [of attempt] by simp
  }
  {
    assume "k < max_retries \<and> (\<forall>i<k. retryable (client_get i))"
    then show "fetch client_get =
                (Inl (HTTPException 502
                   (''BGG returned HTTP error '' @ str_int status_code @ '': '' @ take 200 text)),
                 \<lparr>calls = Suc k, sleeps = replicate k retry_delay\<rparr>)"
      using fetch_Raise [of k client_get] step [of k] by simp
  }
qed

theorem unexpected_status_502_witness:
  "retry_loop (\<lambda>i. if i < 2 then TimeoutException ''timed out'' else Response 404 ''Not Found'')
     [2, 3, 4] \<lparr>calls = 2, sleeps = [5, 5]\<rparr> =
     (Raised (HTTPException 502 ''BGG returned HTTP error 404: Not Found''),
      \<lparr>calls = 3, sleeps = [5, 5]\<rparr>)
   \<and> fetch (\<lambda>i. if i < 2 then TimeoutException ''timed out'' else Response 404 ''Not Found'') =
     (Inl (HTTPException 502 ''BGG returned HTTP error 404: Not Found''),
      \<lparr>calls = 3, sleeps = [5, 5]\<rparr>)"
proof -
  let ?up = "\<lambda>i::nat. if i < 2 then TimeoutException ''timed out'' else Response 404 ''Not Found''"
  have r: "\<forall>i<2. retryable (?up i)" by (simp add: retryable_def)
  have s: "str_int 404 = ''404''" by (simp add: str_int_def str_nat.simps)
  have d: "replicate 2 retry_delay = [5, 5]" by (simp add: retry_delay_def numeral_2_eq_2)
  show ?thesis
    using unexpected_status_502 [of "?up" 2 404 "''Not Found''" "\<lparr>calls = 2, sleeps = [5, 5]\<rparr>" 2 "[3, 4]"] r s d
    by (simp add: max_retries_def)
qed

text \<open>
  Claim C10. Whatever the outcomes of the upstream calls are (a response of any status,
  a timeout, a transport error), the loop over \<open>range(max_retries)\<close> never runs out: it
  ends after one to five calls, either by \<open>break\<close> with the body of a 200 response or by
  raising a classified failure (202, 502, 503 or 504). So the \<open>else\<close> clause of the loop
  is never run, and the request never fails with its "Could not retrieve collection"
  error.
\<close>

theorem fallback_unreachable:
  assumes "retry_loop client_get [0..<max_retries] \<lparr>calls = 0, sleeps = []\<rparr> = (ex, tr)"
  shows "ex \<noteq> Exhausted
         \<and> 1 \<le> calls tr \<and> calls tr \<le> max_retries
         \<and> ((\<exists>body. ex = Broke body \<and> client_get (calls tr - 1) = Response 200 body)
              \<or> (\<exists>e. ex = Raised e \<and> classified e))
         \<and> fst (fetch client_get) \<noteq> Inl fallback"
proof -
  note exit = retry_loop_exit [OF assms]
  have last: "last [0..<max_retries] = 4" "[0..<max_retries] \<noteq> []"
    by (simp_all add: range_max_retries)
  have not_exhausted: "ex \<noteq> Exhausted"
    using exit last by (auto simp: max_retries_def)
  have upper: "calls tr \<le> max_retries"
    using retry_loop_calls [of client_get "[0..<max_retries]" "\<lparr>calls = 0, sleeps = []\<rparr>"] assms
    by simp
  have lower: "1 \<le> calls tr"
    using retry_loop_calls_lower [of "\<lparr>calls = 0, sleeps = []\<rparr>" "[0..<max_retries]" client_get]
      assms
    by (simp add: range_max_retries)
  have how: "(\<exists>body. ex = Broke body \<and> client_get (calls tr - 1) = Response 200 body)
              \<or> (\<exists>e. ex = Raised e \<and> classified e)"
    using exit not_exhausted by (cases ex) auto
  have "fst (fetch client_get) \<noteq> Inl fallback"
    using exit not_exhausted assms by (cases ex) (auto simp: fetch_def)
  then show ?thesis
    using not_exhausted upper lower how by blast
qed

theorem fallback_unreachable_witness:
  "retry_loop (\<lambda>i. TimeoutException ''timed out'') [0..<max_retries] \<lparr>calls = 0, sleeps = []\<rparr> =
     (Raised (HTTPException 504 ''Timeout contacting BGG after 5 attempts: timed out''),
      \<lparr>calls = 5, sleeps = [5, 5, 5, 5]\<rparr>)
   \<and> fst (fetch (\<lambda>i. TimeoutException ''timed out'')) \<noteq> Inl fallback"
proof -
  have run: "retry_loop (\<lambda>i. TimeoutException ''timed out'') [0..<max_retries]
      \<lparr>calls = 0, sleeps = []\<rparr> =
     (Raised (HTTPException 504 ''Timeout contacting BGG after 5 attempts: timed out''),
      \<lparr>calls = 5, sleeps = [5, 5, 5, 5]\<rparr>)"
    by (simp add: range_max_retries attempt_step_def str_nat_max_retries)
       (simp add: max_retries_def retry_delay_def)
  show ?thesis
    using fallback_unreachable [OF run] run by simp
qed

section \<open>Properties of the handler\<close>

text \<open>
  Claim C9. When the body of the 200 response cannot be parsed, the handler raises the
  502 failure whose detail holds the parser's message and the first 500 characters of
  the body (so an excerpt of at most 500 characters). It is an \<open>HTTPException\<close>, not an
  unhandled error, and the trace is that of the fetch alone: the call that returned the
  200 response is the last one, and no delay follows it.
\<close>

theorem unparsable_xml_502:
  assumes "username \<noteq> []"
    and "k < max_retries" and "\<forall>i<k. retryable (client_get i)"
    and "client_get k = Response 200 xml"
    and "parse xml = Inl msg"
  shows "get_bgg_games parse client_get username =
           (Inl (HTTPException 502
              (''Could not parse BGG XML response: '' @ msg @
               ''. Received response: '' @ take 500 xml)),
            \<lparr>calls = Suc k, sleeps = replicate k retry_delay\<rparr>)
         \<and> length (take 500 xml) \<le> 500"
proof -
  have "attempt_step (client_get k) k = Break xml"
    using assms(4) by (simp add: attempt_step_200)
  then have "fetch client_get = (Inr xml, \<lparr>calls = Suc k, sleeps = replicate k retry_delay\<rparr>)"
    using fetch_Break [OF assms(2,3)] by simp
  then show ?thesis
    using assms(1,5) by (simp add: get_bgg_games_def)
qed

theorem unparsable_xml_502_witness:
  "get_bgg_games (\<lambda>xml. Inl ''syntax error: line 1, column 0'')
     (\<lambda>i. Response 200 ''not xml'') ''alice'' =
     (Inl (HTTPException 502
        ''Could not parse BGG XML response: syntax error: line 1, column 0. Received response: not xml''),
      \<lparr>calls = 1, sleeps = []\<rparr>)"
  using unparsable_xml_502 [of "''alice''" 0 "\<lambda>i. Response 200 ''not xml''" "''not xml''"
      "\<lambda>xml. Inl ''syntax error: line 1, column 0''" "''syntax error: line 1, column 0''"]
  by (simp add: max_retries_def)

section \<open>The normalizer: auxiliary facts\<close>

lemma sortindex_is_1_iff: "sortindex_is_1 d = has_sortindex_1 (PyDict d)"
  by (auto simp: sortindex_is_1_def has_sortindex_1_def dict_get_def split: option.splits)

lemma find_sortindex_skip:
  "\<forall>n\<in>set pre. \<not> has_sortindex_1 n \<Longrightarrow> find_sortindex (pre @ ns) = find_sortindex ns"
proof (induction pre)
  case Nil
  show ?case by simp
next
  case (Cons n pre)
  then have "\<not> has_sortindex_1 n" and "find_sortindex (pre @ ns) = find_sortindex ns"
    by simp_all
  then show ?case
    by (cases n) (simp_all add: sortindex_is_1_iff)
qed

lemma find_sortindex_none:
  "\<forall>n\<in>set ns. \<not> has_sortindex_1 n \<Longrightarrow> find_sortindex ns = null"
  using find_sortindex_skip [of ns "[]"] by simp

lemma find_sortindex_hit:
  "has_sortindex_1 (PyDict d) \<Longrightarrow> find_sortindex (PyDict d # post) = text_or_value d"
  by (simp add: sortindex_is_1_iff)

lemma extract_name_hit:
  assumes "\<forall>n\<in>set pre. \<not> has_sortindex_1 n" and "has_sortindex_1 (PyDict d)"
    and "text_or_value d \<noteq> null"
  shows "extract_name (Many (pre @ PyDict d # post)) = text_or_value d"
proof -
  have "find_sortindex (pre @ PyDict d # post) = text_or_value d"
    using find_sortindex_skip [OF assms(1)] find_sortindex_hit [OF assms(2)] by simp
  then show ?thesis
    using assms(3) by (simp add: extract_name_def)
qed

lemma extract_name_first:
  assumes "\<forall>n\<in>set (PyDict d # rest). \<not> has_sortindex_1 n"
  shows "extract_name (Many (PyDict d # rest)) = text_or_value d"
  using find_sortindex_none [OF assms] by (simp add: extract_name_def)

lemma text_or_value_empty:
  "map_of d ''#text'' = None \<Longrightarrow> map_of d ''@value'' = None \<Longrightarrow> text_or_value d = str ''''"
  by (simp add: text_or_value_def dict_get_def)

lemma build_result_dicts:
  "list_all is_dict gs \<Longrightarrow>
   build_result gs acc = Inr (acc @ map (\<lambda>g. parsed_game (the_dict g)) gs)"
  by (induction gs arbitrary: acc) (auto simp: is_dict_def the_dict_def split: elem.splits)

lemma build_result_length:
  "build_result gs acc = Inr result \<Longrightarrow> length result = length acc + length gs"
  by (induction gs arbitrary: acc) (auto split: elem.splits)

lemma normalize_ok_shape:
  assumes "map_of data ''message'' = None" and "tree_shape_ok data"
  shows "normalize data = Inr (ok_response (map (\<lambda>g. parsed_game (the_dict g)) (item_list data)))"
  using assms
  by (auto simp: normalize_def tree_shape_ok_def item_shape_ok_def item_list_def dict_get_def
      iterate_def ok_response_def build_result_dicts is_dict_def the_dict_def Let_def
      split: option.splits node.splits elem.splits)

section \<open>Properties of the normalizer\<close>

text \<open>
  Claim C5. In a sequence of name candidates, the name is taken from the first entry
  whose \<open>sortindex\<close> attribute is the string \<open>"1"\<close> or the integer \<open>1\<close>; when no entry has
  it, the name is taken from the first entry of the sequence. The value taken from an
  entry is its text, else its \<open>value\<close> attribute; in a parsed tree these are strings,
  never \<open>None\<close>, which is the hypothesis on the entry with \<open>sortindex\<close> 1. The candidates
  \<open>[{sortindex: "2", text: "B"}, {sortindex: "1", text: "A"}]\<close> give \<open>"A"\<close>, and
  \<open>[{sortindex: "2", text: "B"}]\<close> gives \<open>"B"\<close>.
\<close>

theorem name_from_sortindex_1:
  "((\<forall>n\<in>set pre. \<not> has_sortindex_1 n) \<and> has_sortindex_1 (PyDict d) \<and> text_or_value d \<noteq> null
      \<longrightarrow> extract_name (Many (pre @ PyDict d # post)) = text_or_value d)
   \<and> ((\<forall>n\<in>set (PyDict d0 # rest). \<not> has_sortindex_1 n)
      \<longrightarrow> extract_name (Many (PyDict d0 # rest)) = text_or_value d0)
   \<and> (sortindex_is_1 c \<longleftrightarrow>
        map_of c ''@sortindex'' = Some (str ''1'') \<or> map_of c ''@sortindex'' = Some (Single (PyInt 1)))
   \<and> extract_name (Many [PyDict [(''@sortindex'', str ''2''), (''#text'', str ''B'')],
                           PyDict [(''@sortindex'', str ''1''), (''#text'', str ''A'')]]) = str ''A''
   \<and> extract_name (Many [PyDict [(''@sortindex'', str ''2''), (''#text'', str ''B'')]]) = str ''B''"
proof (intro conjI impI)
  assume "(\<forall>n\<in>set pre. \<not> has_sortindex_1 n) \<and> has_sortindex_1 (PyDict d) \<and> text_or_value d \<noteq> null"
  then show "extract_name (Many (pre @ PyDict d # post)) = text_or_value d"
    using extract_name_hit [of pre d post] by blast
next
  assume "\<forall>n\<in>set (PyDict d0 # rest). \<not> has_sortindex_1 n"
  then show "extract_name (Many (PyDict d0 # rest)) = text_or_value d0"
    by (rule extract_name_first)
next
  show "sortindex_is_1 c \<longleftrightarrow>
        map_of c ''@sortindex'' = Some (str ''1'') \<or> map_of c ''@sortindex'' = Some (Single (PyInt 1))"
    by (simp add: sortindex_is_1_iff has_sortindex_1_def)
next
  show "extract_name (Many [PyDict [(''@sortindex'', str ''2''), (''#text'', str ''B'')],
                           PyDict [(''@sortindex'', str ''1''), (''#text'', str ''A'')]]) = str ''A''"
    by (simp add: extract_name_def sortindex_is_1_def text_or_value_def dict_get_def)
next
  show "extract_name (Many [PyDict [(''@sortindex'', str ''2''), (''#text'', str ''B'')]]) = str ''B''"
    by (simp add: extract_name_def sortindex_is_1_def text_or_value_def dict_get_def)
qed

theorem name_from_sortindex_1_witness:
  "extract_name (Many [PyDict [(''@sortindex'', str ''3''), (''#text'', str ''Die Siedler'')],
                       PyDict [(''@sortindex'', Single (PyInt 1)), (''@value'', str ''Catan'')],
                       PyDict [(''@sortindex'', str ''1''), (''#text'', str ''Settlers'')]]) = str ''Catan''
   \<and> extract_name (Many [PyDict [(''@sortindex'', str ''3''), (''#text'', str ''Die Siedler'')],
                          PyDict [(''@sortindex'', str ''2''), (''#text'', str ''Catane'')]])
       = str ''Die Siedler''"
proof -
  let ?c3 = "[(''@sortindex'', str ''3''), (''#text'', str ''Die Siedler'')]"
  let ?c1 = "[(''@sortindex'', Single (PyInt 1)), (''@value'', str ''Catan'')]"
  let ?c1' = "[(''@sortindex'', str ''1''), (''#text'', str ''Settlers'')]"
  let ?c2 = "[(''@sortindex'', str ''2''), (''#text'', str ''Catane'')]"
  have h1: "(\<forall>n\<in>set [PyDict ?c3]. \<not> has_sortindex_1 n) \<and> has_sortindex_1 (PyDict ?c1)
            \<and> text_or_value ?c1 \<noteq> null"
    by (simp add: has_sortindex_1_def text_or_value_def dict_get_def)
  have h2: "\<forall>n\<in>set (PyDict ?c3 # [PyDict ?c2]). \<not> has_sortindex_1 n"
    by (simp add: has_sortindex_1_def)
  have "extract_name (Many ([PyDict ?c3] @ PyDict ?c1 # [PyDict ?c1'])) = text_or_value ?c1
        \<and> extract_name (Many (PyDict ?c3 # [PyDict ?c2])) = text_or_value ?c3"
    using name_from_sortindex_1 [of "[PyDict ?c3]" "?c1" "[PyDict ?c1']" "?c3" "[PyDict ?c2]"] h1 h2
    by blast
  then show ?thesis
    by (simp add: text_or_value_def dict_get_def)
qed

text \<open>
  Claim C3, as the code has it. A name mapping with neither a \<open>#text\<close> entry nor a
  \<open>@value\<close> entry gives the empty string, not null: the default of the lookup is \<open>""\<close>.
  The same holds for the candidate taken from a sequence, be it the first entry with
  \<open>sortindex\<close> 1 or, when there is none, the first entry. The record of an item always
  has its \<open>name\<close> field.
\<close>

theorem name_without_text_is_empty:
  assumes "map_of d ''#text'' = None" and "map_of d ''@value'' = None"
  shows "extract_name (Single (PyDict d)) = str ''''
         \<and> ((\<forall>n\<in>set pre. \<not> has_sortindex_1 n) \<and> has_sortindex_1 (PyDict d)
              \<longrightarrow> extract_name (Many (pre @ PyDict d # post)) = str '''')
         \<and> ((\<forall>n\<in>set (PyDict d # rest). \<not> has_sortindex_1 n)
              \<longrightarrow> extract_name (Many (PyDict d # rest)) = str '''')
         \<and> map_of (the_dict (parsed_game g)) ''name'' = Some (extract_name (dict_get g ''name'' null))"
proof -
  note empty = text_or_value_empty [OF assms]
  have single: "extract_name (Single (PyDict d)) = str ''''"
    using empty by (simp add: extract_name_def)
  have hit: "extract_name (Many (pre @ PyDict d # post)) = str ''''"
    if "(\<forall>n\<in>set pre. \<not> has_sortindex_1 n) \<and> has_sortindex_1 (PyDict d)"
    using extract_name_hit [of pre d post] that empty by simp
  have first: "extract_name (Many (PyDict d # rest)) = str ''''"
    if "\<forall>n\<in>set (PyDict d # rest). \<not> has_sortindex_1 n"
    using extract_name_first [OF that] empty by simp
  have field: "map_of (the_dict (parsed_game g)) ''name'' = Some (extract_name (dict_get g ''name'' null))"
    by (simp add: parsed_game_def the_dict_def)
  show ?thesis
    using single hit first field by blast
qed

theorem name_without_text_is_empty_witness:
  "extract_name (Single (PyDict [(''@sortindex'', str ''1'')])) = str ''''
   \<and> extract_name (Many [PyDict [(''@sortindex'', str ''2''), (''#text'', str ''B'')],
                          PyDict [(''@sortindex'', str ''1'')]]) = str ''''"
proof -
  let ?d = "[(''@sortindex'', str ''1'')]"
  let ?b = "[(''@sortindex'', str ''2''), (''#text'', str ''B'')]"
  have a: "map_of ?d ''#text'' = None" "map_of ?d ''@value'' = None"
    by simp_all
  have h: "(\<forall>n\<in>set [PyDict ?b]. \<not> has_sortindex_1 n) \<and> has_sortindex_1 (PyDict ?d)"
    by (simp add: has_sortindex_1_def)
  have "extract_name (Single (PyDict ?d)) = str ''''
        \<and> extract_name (Many ([PyDict ?b] @ PyDict ?d # [])) = str ''''"
    using name_without_text_is_empty [OF a, of "[PyDict ?b]" "[]"] h by blast
  then show ?thesis by simp
qed

text \<open>
  The item \<open><item objectid="13"><name sortindex="1"/></item>\<close>: its name mapping has only
  the \<open>sortindex\<close> attribute, and the name in the response is the empty string.
\<close>

theorem name_without_text_counterexample:
  "normalize
     [(''items'', Single (PyDict [(''item'', Single (PyDict
        [(''@objectid'', str ''13''), (''name'', Single (PyDict [(''@sortindex'', str ''1'')]))]))]))]
   = Inr [(''status'', str ''ok''), (''count'', Single (PyInt 1)),
          (''items'', Many [PyDict [(''objectid'', str ''13''), (''name'', str '''')]])]"
  by (simp add: normalize_def dict_get_def iterate_def parsed_game_def extract_name_def
      text_or_value_def)

text \<open>
  Claim C4, as the code has it. Normalization raises nothing on a tree with a top-level
  \<open>message\<close>, and on a tree whose \<open>items\<close> node is absent or a mapping and whose \<open>item\<close>
  node is absent, a mapping, or a sequence of mappings, whatever the \<open>name\<close> node of an
  item is. It returns a processing result in the first case and otherwise an ok result
  with one record per item, in upstream order. In a record, an absent \<open>objectid\<close> is
  null, and an absent or null \<open>name\<close> is null.
\<close>

theorem normalize_total_on_handled_shapes:
  assumes "tree_shape_ok data"
  shows "(map_of data ''message'' \<noteq> None \<longrightarrow>
            (\<exists>msg. normalize data = Inr [(''status'', str ''processing''), (''message'', msg)]))
         \<and> (map_of data ''message'' = None \<longrightarrow>
              normalize data =
                Inr (ok_response (map (\<lambda>g. parsed_game (the_dict g)) (item_list data))))
         \<and> (map_of g ''@objectid'' = None \<longrightarrow>
              map_of (the_dict (parsed_game g)) ''objectid'' = Some null)
         \<and> (map_of g ''name'' = None \<or> map_of g ''name'' = Some null \<longrightarrow>
              map_of (the_dict (parsed_game g)) ''name'' = Some null)"
proof (intro conjI impI)
  assume "map_of data ''message'' \<noteq> None"
  then show "\<exists>msg. normalize data = Inr [(''status'', str ''processing''), (''message'', msg)]"
    by (auto simp: normalize_def)
next
  assume "map_of data ''message'' = None"
  then show "normalize data =
      Inr (ok_response (map (\<lambda>g. parsed_game (the_dict g)) (item_list data)))"
    using assms by (rule normalize_ok_shape)
next
  assume "map_of g ''@objectid'' = None"
  then show "map_of (the_dict (parsed_game g)) ''objectid'' = Some null"
    by (simp add: parsed_game_def the_dict_def dict_get_def)
next
  assume "map_of g ''name'' = None \<or> map_of g ''name'' = Some null"
  then show "map_of (the_dict (parsed_game g)) ''name'' = Some null"
    by (auto simp: parsed_game_def the_dict_def dict_get_def extract_name_def)
qed

theorem normalize_total_on_handled_shapes_witness:
  "normalize
     [(''items'', Single (PyDict [(''@totalitems'', str ''2''),
        (''item'', Many [PyDict [(''@objectid'', str ''13''), (''name'', str ''Catan'')],
                         PyDict [(''@subtype'', str ''boardgame'')]])]))]
   = Inr [(''status'', str ''ok''), (''count'', Single (PyInt 2)),
          (''items'', Many [PyDict [(''objectid'', str ''13''), (''name'', str ''Catan'')],
                            PyDict [(''objectid'', null), (''name'', null)]])]"
proof -
  let ?data = "[(''items'', Single (PyDict [(''@totalitems'', str ''2''),
        (''item'', Many [PyDict [(''@objectid'', str ''13''), (''name'', str ''Catan'')],
                         PyDict [(''@subtype'', str ''boardgame'')]])]))]"
  have ok: "tree_shape_ok ?data"
    by (simp add: tree_shape_ok_def item_shape_ok_def is_dict_def)
  have no_message: "map_of ?data ''message'' = None"
    by simp
  have "normalize ?data = Inr (ok_response (map (\<lambda>g. parsed_game (the_dict g)) (item_list ?data)))"
    using normalize_total_on_handled_shapes [OF ok] no_message by blast
  then show ?thesis
    by (simp add: ok_response_def item_list_def the_dict_def parsed_game_def dict_get_def
        extract_name_def)
qed

text \<open>
  The tree of \<open><items><item/></items>\<close> has a null \<open>item\<close> node: the loop over it raises
  \<open>TypeError\<close>, which nothing catches.
\<close>

theorem null_item_raises_counterexample:
  "normalize [(''items'', Single (PyDict [(''item'', null)]))] = Inl TypeError"
  by (simp add: normalize_def dict_get_def iterate_def)

text \<open>
  Claim C6, as the code has it. A tree whose \<open>item\<close> node is the single mapping \<open>m\<close>
  normalizes to the same result as the tree whose \<open>item\<close> node is the sequence \<open>[m]\<close>.
  A tree with no top-level \<open>message\<close> whose \<open>items\<close> node is absent, or is a mapping
  with no \<open>item\<close> entry, normalizes to status ok with count 0 and no items.
\<close>

theorem single_item_as_singleton:
  "(map_of data ''message'' = map_of data' ''message''
      \<and> map_of data ''items'' = Some (Single (PyDict its))
      \<and> map_of data' ''items'' = Some (Single (PyDict its'))
      \<and> map_of its ''item'' = Some (Single (PyDict m))
      \<and> map_of its' ''item'' = Some (Many [PyDict m])
      \<longrightarrow> normalize data = normalize data')
   \<and> (map_of t ''message'' = None
        \<and> (map_of t ''items'' = None
             \<or> (\<exists>its0. map_of t ''items'' = Some (Single (PyDict its0)) \<and> map_of its0 ''item'' = None))
      \<longrightarrow> normalize t =
            Inr [(''status'', str ''ok''), (''count'', Single (PyInt 0)), (''items'', Many [])])"
proof (intro conjI impI)
  assume "map_of data ''message'' = map_of data' ''message''
      \<and> map_of data ''items'' = Some (Single (PyDict its))
      \<and> map_of data' ''items'' = Some (Single (PyDict its'))
      \<and> map_of its ''item'' = Some (Single (PyDict m))
      \<and> map_of its' ''item'' = Some (Many [PyDict m])"
  then show "normalize data = normalize data'"
    by (auto simp: normalize_def dict_get_def iterate_def split: option.splits)
next
  assume "map_of t ''message'' = None
        \<and> (map_of t ''items'' = None
             \<or> (\<exists>its0. map_of t ''items'' = Some (Single (PyDict its0)) \<and> map_of its0 ''item'' = None))"
  then show "normalize t =
            Inr [(''status'', str ''ok''), (''count'', Single (PyInt 0)), (''items'', Many [])]"
    by (auto simp: normalize_def dict_get_def iterate_def)
qed

theorem single_item_as_singleton_witness:
  "normalize [(''items'', Single (PyDict [(''item'', Single (PyDict
                [(''@objectid'', str ''13''), (''name'', str ''Catan'')]))]))]
   = normalize [(''items'', Single (PyDict [(''item'', Many [PyDict
                [(''@objectid'', str ''13''), (''name'', str ''Catan'')]])]))]
   \<and> normalize [(''items'', Single (PyDict [(''@totalitems'', str ''0'')]))]
     = Inr [(''status'', str ''ok''), (''count'', Single (PyInt 0)), (''items'', Many [])]"
proof -
  let ?m = "[(''@objectid'', str ''13''), (''name'', str ''Catan'')]"
  let ?its = "[(''item'', Single (PyDict ?m))]"
  let ?its' = "[(''item'', Many [PyDict ?m])]"
  let ?t = "[(''items'', Single (PyDict [(''@totalitems'', str ''0'')]))]"
  have h1: "map_of [(''items'', Single (PyDict ?its))] ''message''
              = map_of [(''items'', Single (PyDict ?its'))] ''message''
      \<and> map_of [(''items'', Single (PyDict ?its))] ''items'' = Some (Single (PyDict ?its))
      \<and> map_of [(''items'', Single (PyDict ?its'))] ''items'' = Some (Single (PyDict ?its'))
      \<and> map_of ?its ''item'' = Some (Single (PyDict ?m))
      \<and> map_of ?its' ''item'' = Some (Many [PyDict ?m])"
    by simp
  have h2: "map_of ?t ''message'' = None
        \<and> (map_of ?t ''items'' = None
             \<or> (\<exists>its0. map_of ?t ''items'' = Some (Single (PyDict its0)) \<and> map_of its0 ''item'' = None))"
    by simp
  show ?thesis
    using single_item_as_singleton [of "[(''items'', Single (PyDict ?its))]"
        "[(''items'', Single (PyDict ?its'))]" "?its" "?its'" "?m" "?t"] h1 h2
    by blast
qed

text \<open>
  The tree of \<open><items/>\<close> has a null \<open>items\<close> node and so no \<open>item\<close> node: the lookup of
  \<open>item\<close> in it raises \<open>AttributeError\<close>.
\<close>

theorem empty_items_element_counterexample:
  "normalize [(''items'', null)] = Inl AttributeError"
  by (simp add: normalize_def dict_get_def)

text \<open>
  Claim C7. In every ok response of the normalizer, the \<open>count\<close> field is the length of
  the \<open>items\<close> sequence.
\<close>

theorem count_eq_length:
  assumes "normalize data = Inr resp" and "map_of resp ''status'' = Some (str ''ok'')"
  shows "\<exists>result. map_of resp ''items'' = Some (Many result)
                  \<and> map_of resp ''count'' = Some (Single (PyInt (int (length result))))"
proof (cases "map_of data ''message''")
  case (Some m)
  then have "map_of resp ''status'' = Some (str ''processing'')"
    using assms(1) by (auto simp: normalize_def)
  then show ?thesis using assms(2) by simp
next
  case None
  then obtain result where "resp = ok_response result"
    using assms(1)
    by (auto simp: normalize_def ok_response_def Let_def split: node.splits elem.splits sum.splits)
  then show ?thesis by (simp add: ok_response_def)
qed

theorem count_eq_length_witness:
  "map_of [(''status'', str ''ok''), (''count'', Single (PyInt 2)),
           (''items'', Many [PyDict [(''objectid'', str ''13''), (''name'', str ''Catan'')],
                             PyDict [(''objectid'', str ''822''), (''name'', str ''Carcassonne'')]])]
     ''count'' = Some (Single (PyInt (int (length
          [PyDict [(''objectid'', str ''13''), (''name'', str ''Catan'')],
           PyDict [(''objectid'', str ''822''), (''name'', str ''Carcassonne'')]]))))"
proof -
  let ?data = "[(''items'', Single (PyDict
      [(''item'', Many [PyDict [(''@objectid'', str ''13''), (''name'', str ''Catan'')],
                        PyDict [(''@objectid'', str ''822''),
                                (''name'', Single (PyDict [(''@sortindex'', str ''1''),
                                                           (''#text'', str ''Carcassonne'')]))]])]))]"
  let ?resp = "[(''status'', str ''ok''), (''count'', Single (PyInt 2)),
           (''items'', Many [PyDict [(''objectid'', str ''13''), (''name'', str ''Catan'')],
                             PyDict [(''objectid'', str ''822''), (''name'', str ''Carcassonne'')]])]"
  have run: "normalize ?data = Inr ?resp"
    by (simp add: normalize_def dict_get_def iterate_def parsed_game_def extract_name_def
        text_or_value_def)
  have ok: "map_of ?resp ''status'' = Some (str ''ok'')"
    by simp
  show ?thesis
    using count_eq_length [OF run ok] by simp
qed

text \<open>
  Claim C8. A parsed tree with a top-level \<open>message\<close> node normalizes to a processing
  result, whatever else the tree holds: the response has status \<open>processing\<close>, no \<open>items\<close>
  and no \<open>count\<close>, and its message is the text of the node: the \<open>#text\<close> entry of a
  mapping (null when it has none), the string itself, null for an empty node. The
  handler returns this result when the tree comes from the body of a 200 response.
\<close>

theorem message_is_processing:
  assumes "map_of data ''message'' = Some m"
  shows "\<exists>resp msg. normalize data = Inr resp
           \<and> resp = [(''status'', str ''processing''), (''message'', msg)]
           \<and> map_of resp ''items'' = None \<and> map_of resp ''count'' = None
           \<and> (\<forall>d t. m = Single (PyDict d) \<and> map_of d ''#text'' = Some t \<longrightarrow> msg = t)
           \<and> (\<forall>d. m = Single (PyDict d) \<and> map_of d ''#text'' = None \<longrightarrow> msg = null)
           \<and> (\<forall>s. m = str s \<longrightarrow> msg = str s)
           \<and> (m = null \<longrightarrow> msg = null)
           \<and> (username \<noteq> [] \<and> k < max_retries \<and> (\<forall>i<k. retryable (client_get i))
                \<and> client_get k = Response 200 xml \<and> parse xml = Inr data
              \<longrightarrow> get_bgg_games parse client_get username =
                    (Inr resp, \<lparr>calls = Suc k, sleeps = replicate k retry_delay\<rparr>))"
proof -
  let ?msg = "case m of Single (PyDict d) \<Rightarrow> dict_get d ''#text'' null | _ \<Rightarrow> m"
  let ?resp = "[(''status'', str ''processing''), (''message'', ?msg)]"
  have run: "normalize data = Inr ?resp"
    using assms by (simp add: normalize_def)
  have handler: "get_bgg_games parse client_get username =
                    (Inr ?resp, \<lparr>calls = Suc k, sleeps = replicate k retry_delay\<rparr>)"
    if h: "username \<noteq> [] \<and> k < max_retries \<and> (\<forall>i<k. retryable (client_get i))
                \<and> client_get k = Response 200 xml \<and> parse xml = Inr data"
  proof -
    have "attempt_step (client_get k) k = Break xml"
      using h by (simp add: attempt_step_200)
    then have "fetch client_get = (Inr xml, \<lparr>calls = Suc k, sleeps = replicate k retry_delay\<rparr>)"
      using fetch_Break [of k client_get xml] h by simp
    then show ?thesis
      using h run by (simp add: get_bgg_games_def)
  qed
  have shape: "(\<forall>d t. m = Single (PyDict d) \<and> map_of d ''#text'' = Some t \<longrightarrow> ?msg = t)
           \<and> (\<forall>d. m = Single (PyDict d) \<and> map_of d ''#text'' = None \<longrightarrow> ?msg = null)
           \<and> (\<forall>s. m = str s \<longrightarrow> ?msg = str s)
           \<and> (m = null \<longrightarrow> ?msg = null)"
    by (auto simp: dict_get_def)
  have absent: "map_of ?resp ''items'' = None \<and> map_of ?resp ''count'' = None"
    by simp
  show ?thesis
    using run handler shape absent by blast
qed

theorem message_is_processing_witness:
  "get_bgg_games
     (\<lambda>xml. Inr [(''message'', str ''Your request for this collection has been accepted'')])
     (\<lambda>i. Response 200 ''<message>Your request for this collection has been accepted</message>'')
     ''alice''
   = (Inr [(''status'', str ''processing''),
           (''message'', str ''Your request for this collection has been accepted'')],
      \<lparr>calls = 1, sleeps = []\<rparr>)"
proof -
  let ?data = "[(''message'', str ''Your request for this collection has been accepted'')]"
  let ?xml = "''<message>Your request for this collection has been accepted</message>''"
  have a: "map_of ?data ''message'' = Some (str ''Your request for this collection has been accepted'')"
    by simp
  have h: "''alice'' \<noteq> [] \<and> (0::nat) < max_retries \<and> (\<forall>i<(0::nat). retryable (Response 200 ?xml))
           \<and> Response 200 ?xml = Response 200 ?xml \<and> Inr ?data = Inr ?data"
    by (simp add: max_retries_def)
  show ?thesis
    using message_is_processing [OF a, of "''alice''" 0 "\<lambda>i. Response 200 ?xml" "?xml" "\<lambda>xml. Inr ?data"] h
    by auto
qed

end
